theory Spec2Isabelle
  imports Main
begin

section \<open>The JSON store behind \<^verbatim>\<open>feedback.json\<close>\<close>

text \<open>
  The bot keeps one JSON document on disk. Every helper of \<^verbatim>\<open>index.js\<close> reads the whole
  file with \<^verbatim>\<open>loadDb\<close>, changes the object in memory and (sometimes) writes the whole
  object back with \<^verbatim>\<open>saveDb\<close>. The file is the only state, so each helper is a function
  from the file before the call to its return value and the file after it.

  Numbers: the allowances are JavaScript numbers that only ever come from
  \<^verbatim>\<open>parseInt\<close> and from subtracting 1, so they are integers and are modelled as \<open>int\<close>.
  A JavaScript number is a double: every integer up to \<open>2^53\<close> is one, and beyond that
  only some are. The one computation on an allowance, subtracting 1, is modelled with
  the rounding of doubles (\<open>js_sub1\<close> below).
  Keys of the allowance object are Discord user ids.

  The sources hold an earlier copy of \<^verbatim>\<open>index.js\<close> as well. Its store helpers and its
  feedback handlers are the same, but for the \<^verbatim>\<open>platform\<close> field of a record; it has no
  tickets.
\<close>

datatype platform = Unknown | Mobile | Desktop | Web

record entry =
  userId :: string
  username :: string
  rating :: int
  comment :: string
  platform :: platform
  createdAt :: string
  messageId :: "string option"
  channelId :: "string option"

record db =
  feedback :: "entry list"
  allowances :: "string \<rightharpoonup> int"

text \<open>
  What \<^verbatim>\<open>fs.readFileSync\<close> followed by \<^verbatim>\<open>JSON.parse\<close> can give: an exception (no file,
  or text that is not JSON), or an object whose \<^verbatim>\<open>feedback\<close> key may or may not hold an
  array and whose \<^verbatim>\<open>allowances\<close> key may or may not hold an object. (Any other key of
  the document is carried along by the code and read by nothing; it is left out.)
  The disk is that content together with the number of calls of \<^verbatim>\<open>fs.writeFileSync\<close>
  so far, so that a helper that does not write can be told from one that writes the
  same content again.
\<close>

datatype json_file =
  Unreadable
| Parsed "entry list option" "(string \<rightharpoonup> int) option"

record disk =
  file_content :: json_file
  writes :: nat

definition loadDb :: "disk \<Rightarrow> db" where
  "loadDb d =
     (case file_content d of
        Unreadable \<Rightarrow> \<lparr>feedback = [], allowances = Map.empty\<rparr>
      | Parsed f a \<Rightarrow>
          \<lparr>feedback = (case f of None \<Rightarrow> [] | Some xs \<Rightarrow> xs),
           allowances = (case a of None \<Rightarrow> Map.empty | Some m \<Rightarrow> m)\<rparr>)"

text \<open>\<^verbatim>\<open>JSON.stringify\<close> of the object, written over the whole file.\<close>

definition serialize :: "db \<Rightarrow> json_file" where
  "serialize x = Parsed (Some (feedback x)) (Some (allowances x))"

definition saveDb :: "db \<Rightarrow> disk \<Rightarrow> disk" where
  "saveDb x d = \<lparr>file_content = serialize x, writes = Suc (writes d)\<rparr>"

definition addFeedback :: "entry \<Rightarrow> disk \<Rightarrow> disk" where
  "addFeedback e d =
     (let x = loadDb d in saveDb (x\<lparr>feedback := feedback x @ [e]\<rparr>) d)"

definition removeFeedbackByMessageId :: "string \<Rightarrow> disk \<Rightarrow> disk" where
  "removeFeedbackByMessageId m d =
     (let x = loadDb d;
          before = length (feedback x);
          y = x\<lparr>feedback := filter (\<lambda>f. messageId f \<noteq> Some m) (feedback x)\<rparr>;
          after = length (feedback y)
      in if after \<noteq> before then saveDb y d else d)"

subsection \<open>Allowance helpers\<close>

text \<open>
  \<^verbatim>\<open>if (!db.allowances) db.allowances = {}\<close> in the three helpers never fires, because
  \<^verbatim>\<open>loadDb\<close> has already put an object there.
\<close>

definition setAllowance :: "string \<Rightarrow> int \<Rightarrow> disk \<Rightarrow> disk" where
  "setAllowance u amount d =
     (let x = loadDb d in saveDb (x\<lparr>allowances := (allowances x)(u \<mapsto> amount)\<rparr>) d)"

text \<open>
  \<^verbatim>\<open>db.allowances[userId] || 0\<close>: a missing key and the number 0 are both falsy.
  The function has no \<^verbatim>\<open>saveDb\<close>, so the disk after the call is the disk before it.
\<close>

definition getAllowance :: "string \<Rightarrow> disk \<Rightarrow> int" where
  "getAllowance u d =
     (case allowances (loadDb d) u of
        None \<Rightarrow> 0
      | Some v \<Rightarrow> if v \<noteq> 0 then v else 0)"

text \<open>
  \<^verbatim>\<open>v -= 1\<close> on a double \<open>v\<close> with an integer value. Up to \<open>2^53 = 9007199254740992\<close> the
  difference is a double and the result is exact. Above that the doubles are 2 apart up
  to \<open>2^54\<close>, so \<open>v - 1\<close> lies half way between the doubles \<open>v - 2\<close> and \<open>v\<close> and is
  rounded to the one whose last bit is even; beyond \<open>2^54\<close> they are at least 4 apart
  and \<open>v - 1\<close> is rounded back to \<open>v\<close>. (The code subtracts only from a positive entry.)
\<close>

definition js_sub1 :: "int \<Rightarrow> int" where
  "js_sub1 v =
     (if v \<le> 9007199254740992 then v - 1
      else if v \<le> 18014398509481984 then (if even (v div 2) then v else v - 2)
      else v)"

text \<open>
  \<^verbatim>\<open>decrementAllowance\<close> first writes 0 into the object in memory when the entry is
  falsy, then subtracts 1 and saves only when the entry is positive. It returns the
  entry of the object in memory; the second component is the disk after the call.
\<close>

definition decrementAllowance :: "string \<Rightarrow> disk \<Rightarrow> int \<times> disk" where
  "decrementAllowance u d =
     (let x = loadDb d;
          x1 = (case allowances x u of
                  None \<Rightarrow> x\<lparr>allowances := (allowances x)(u \<mapsto> 0)\<rparr>
                | Some v \<Rightarrow> if v = 0 then x\<lparr>allowances := (allowances x)(u \<mapsto> 0)\<rparr> else x);
          v1 = (case allowances x1 u of None \<Rightarrow> 0 | Some v \<Rightarrow> v)
      in if v1 > 0
         then (let x2 = x1\<lparr>allowances := (allowances x1)(u \<mapsto> js_sub1 v1)\<rparr>
               in (js_sub1 v1, saveDb x2 d))
         else (v1, d))"

text \<open>
  The three operations of the allowance gate as calls, with the value returned (none
  for a grant) and the disk after the call.
\<close>

datatype gate_call = Grant string int | Get string | Decrement string

fun gate :: "gate_call \<Rightarrow> disk \<Rightarrow> int option \<times> disk" where
  "gate (Grant u n) d = (None, setAllowance u n d)"
| "gate (Get u) d = (Some (getAllowance u d), d)"
| "gate (Decrement u) d = (let (r, d') = decrementAllowance u d in (Some r, d'))"

section \<open>Strings: whitespace, \<^verbatim>\<open>parseInt\<close>, \<^verbatim>\<open>split\<close>\<close>

text \<open>
  The ASCII part of JavaScript's white space (\<^verbatim>\<open>\s\<close>, \<^verbatim>\<open>trim\<close>, the prefix
  \<^verbatim>\<open>parseInt\<close> skips) and the decimal digits (\<^verbatim>\<open>\d\<close>).
\<close>

definition is_space :: "char \<Rightarrow> bool" where
  "is_space c \<longleftrightarrow>
     c = CHR '' '' \<or> c = CHR 0x09 \<or> c = CHR 0x0A \<or> c = CHR 0x0B \<or> c = CHR 0x0C \<or> c = CHR 0x0D"

definition is_digit :: "char \<Rightarrow> bool" where
  "is_digit c \<longleftrightarrow> (let n = (of_char c :: nat) in 48 \<le> n \<and> n \<le> 57)"

definition digit_value :: "char \<Rightarrow> int" where
  "digit_value c = int (of_char c) - 48"

definition digits_value :: "string \<Rightarrow> int" where
  "digits_value z = foldl (\<lambda>a c. 10 * a + digit_value c) 0 z"

text \<open>
  \<^verbatim>\<open>parseInt(s, 10)\<close>: skip leading white space, take one optional sign, then the
  longest run of decimal digits; \<open>None\<close> is \<^verbatim>\<open>NaN\<close>. The result is the exact value of
  the digits, which is what the code gets for every value up to \<open>2^53\<close> (beyond that the
  code's result is the nearest double).
\<close>

definition parseInt :: "string \<Rightarrow> int option" where
  "parseInt s =
     (let s1 = dropWhile is_space s;
          sign = (case s1 of [] \<Rightarrow> 1 | c # r \<Rightarrow> if c = CHR ''-'' then - 1 else (1::int));
          s2 = (case s1 of [] \<Rightarrow> s1
                | c # r \<Rightarrow> if c = CHR ''+'' \<or> c = CHR ''-'' then r else s1);
          z = takeWhile is_digit s2
      in if z = [] then None else Some (sign * digits_value z))"

definition trim :: "string \<Rightarrow> string" where
  "trim s = rev (dropWhile is_space (rev (dropWhile is_space s)))"

text \<open>
  \<^verbatim>\<open>s.split(/\s+/)\<close>: \<open>cur\<close> is the piece being read (reversed), \<open>inws\<close> says that the
  previous character was white space.
\<close>

fun split_from :: "string \<Rightarrow> bool \<Rightarrow> string \<Rightarrow> string list" where
  "split_from cur inws [] = [rev cur]"
| "split_from cur inws (c # cs) =
     (if is_space c
      then (if inws then split_from [] True cs else rev cur # split_from [] True cs)
      else split_from (c # cur) False cs)"

definition split_ws :: "string \<Rightarrow> string list" where
  "split_ws s = split_from [] False s"

section \<open>The \<^verbatim>\<open>!allow\<close> command\<close>

record config =
  requiredRoleId :: string
  logChannelId :: string

record allow_message =
  roles :: "string list"
  mention :: "string option"
  content :: string

datatype allow_reply = NoPermission | Usage | NotPositive | Allowed string int

text \<open>
  The branch of \<^verbatim>\<open>messageCreate\<close> that is taken when the trimmed content, in lower
  case, starts with \<^verbatim>\<open>!allow\<close>.
  \<open>roles\<close> are the author's roles, \<open>mention\<close> the id of the first mentioned member.
\<close>

definition allow_command :: "config \<Rightarrow> allow_message \<Rightarrow> disk \<Rightarrow> allow_reply \<times> disk" where
  "allow_command cfg m d =
     (if requiredRoleId cfg \<notin> set (roles m) then (NoPermission, d)
      else
        let args = split_ws (trim (content m)) in
        case mention m of
          None \<Rightarrow> (Usage, d)
        | Some target \<Rightarrow>
            if length args < 3 then (Usage, d)
            else
              (case parseInt (args ! 2) of
                 None \<Rightarrow> (NotPositive, d)
               | Some amount \<Rightarrow>
                   if amount < 1 then (NotPositive, d)
                   else (Allowed target amount, setAllowance target amount d)))"

section \<open>The feedback button and the feedback modal\<close>

datatype button_reply = ButtonNotAllowed | ShowModal

definition feedback_create :: "string \<Rightarrow> disk \<Rightarrow> button_reply" where
  "feedback_create u d =
     (let remaining = getAllowance u d in
      if remaining \<le> 0 then ButtonNotAllowed else ShowModal)"

text \<open>
  What the outside world answers during one modal submission: fetching the log channel
  can throw, the channel can be missing or not text based, sending can throw, or the
  message is sent and has an id and a channel id. \<open>embed_base\<close> says that
  \<^verbatim>\<open>createServerEmbed()\<close> returned, that is, that the builder took the configured colour
  and thumbnail.
\<close>

datatype log_outcome = FetchThrows | NotTextBased | SendThrows | Sent string string

record modal_submit =
  user_id :: string
  user_name :: string
  rating_input :: string
  comment_input :: string
  in_guild :: bool
  client_status :: "(bool \<times> bool \<times> bool) option"
  embed_base :: bool
  log_channel :: log_outcome
  now :: string

datatype modal_reply = RatingError | NotAllowed | Submitted int | SaveError

text \<open>The flags of \<^verbatim>\<open>member?.presence?.clientStatus\<close> are (mobile, desktop, web).\<close>

definition detect_platform :: "modal_submit \<Rightarrow> platform" where
  "detect_platform s =
     (if in_guild s then
        (case client_status s of
           None \<Rightarrow> Unknown
         | Some (mobile, desktop, web) \<Rightarrow>
             if mobile then Mobile else if desktop then Desktop
             else if web then Web else Unknown)
      else Unknown)"

text \<open>
  The log embed is built inside the \<^verbatim>\<open>try\<close>, after the log channel has been fetched and
  before anything is stored. \<^verbatim>\<open>addFields\<close> throws when the value of a field is longer
  than 1024 characters; only two of the four values can be that long: the user line
  and the comment (or its placeholder when the comment is empty). The comment field of
  the modal has no maximal length.
\<close>

definition embed_user_value :: "modal_submit \<Rightarrow> string" where
  "embed_user_value s = user_name s @ '' (ID: '' @ user_id s @ '')''"

definition embed_comment_value :: "modal_submit \<Rightarrow> string" where
  "embed_comment_value s =
     (if comment_input s = [] then ''*No comment provided*'' else comment_input s)"

definition feedback_embed_ok :: "modal_submit \<Rightarrow> bool" where
  "feedback_embed_ok s \<longleftrightarrow>
     embed_base s
     \<and> length (embed_user_value s) \<le> 1024
     \<and> length (embed_comment_value s) \<le> 1024"

text \<open>
  \<open>persist\<close> is the rest of the \<^verbatim>\<open>try\<close>, from the entry on; \<open>sent\<close> holds the ids of the
  log message when one was sent. Every exception inside the \<^verbatim>\<open>try\<close> ends in the same
  \<^verbatim>\<open>catch\<close>, with the reply \<open>SaveError\<close>. (Failures of the file system and of the final
  reply are left out.)
\<close>

definition persist :: "modal_submit \<Rightarrow> int \<Rightarrow> (string \<times> string) option \<Rightarrow> disk \<Rightarrow> modal_reply \<times> disk" where
  "persist s r sent d =
     (let e = \<lparr>userId = user_id s, username = user_name s, rating = r,
               comment = comment_input s, platform = detect_platform s,
               createdAt = now s,
               messageId = map_option fst sent, channelId = map_option snd sent\<rparr>;
          d1 = addFeedback e d;
          (left, d2) = decrementAllowance (user_id s) d1
      in (Submitted left, d2))"

definition feedback_modal :: "modal_submit \<Rightarrow> disk \<Rightarrow> modal_reply \<times> disk" where
  "feedback_modal s d =
     (case parseInt (rating_input s) of
        None \<Rightarrow> (RatingError, d)
      | Some r \<Rightarrow>
          if r < 1 \<or> r > 5 then (RatingError, d)
          else
            let remaining = getAllowance (user_id s) d in
            if remaining \<le> 0 then (NotAllowed, d)
            else
              (case log_channel s of
                 FetchThrows \<Rightarrow> (SaveError, d)
               | NotTextBased \<Rightarrow>
                   if \<not> feedback_embed_ok s then (SaveError, d)
                   else persist s r None d
               | SendThrows \<Rightarrow> (SaveError, d)
               | Sent mid cid \<Rightarrow>
                   if \<not> feedback_embed_ok s then (SaveError, d)
                   else persist s r (Some (mid, cid)) d))"

section \<open>Deleted log messages and the web API\<close>

text \<open>
  \<^verbatim>\<open>messageDelete\<close>: \<open>del_id\<close> is \<^verbatim>\<open>message.id\<close> (an empty string is falsy) and
  \<open>del_channel\<close> is \<^verbatim>\<open>message.channelId || message.channel.id\<close> when there is one.
\<close>

record deleted_message =
  del_id :: string
  del_channel :: "string option"

definition messageDelete :: "config \<Rightarrow> deleted_message \<Rightarrow> disk \<Rightarrow> disk" where
  "messageDelete cfg m d =
     (if del_id m = [] then d
      else
        (case del_channel m of
           None \<Rightarrow> d
         | Some c \<Rightarrow>
             if c = [] then d
             else if c \<noteq> logChannelId cfg then d
             else removeFeedbackByMessageId (del_id m) d))"

text \<open>
  \<^verbatim>\<open>GET /api/feedback-logs\<close> answers with a reversed copy of the list; the handler has
  no write, so the file after the request is the file before it.
\<close>

definition api_feedback_logs :: "disk \<Rightarrow> entry list \<times> disk" where
  "api_feedback_logs d = (let x = loadDb d; all = feedback x in (rev all, d))"

section \<open>Runs of the program\<close>

text \<open>
  The events whose handlers read or write the store, and the disk after the handler
  of one event and of a list of events, one after the other.
\<close>

datatype event =
  AllowCommand allow_message
| FeedbackButton string
| ModalSubmit modal_submit
| MessageDeleted deleted_message
| ApiFeedbackLogs

fun step :: "config \<Rightarrow> event \<Rightarrow> disk \<Rightarrow> disk" where
  "step cfg (AllowCommand m) d = snd (allow_command cfg m d)"
| "step cfg (FeedbackButton u) d = d"
| "step cfg (ModalSubmit s) d = snd (feedback_modal s d)"
| "step cfg (MessageDeleted m) d = messageDelete cfg m d"
| "step cfg ApiFeedbackLogs d = snd (api_feedback_logs d)"

fun run :: "config \<Rightarrow> event list \<Rightarrow> disk \<Rightarrow> disk" where
  "run cfg [] d = d"
| "run cfg (e # es) d = run cfg es (step cfg e d)"

fun run_gate :: "gate_call list \<Rightarrow> disk \<Rightarrow> disk" where
  "run_gate [] d = d"
| "run_gate (c # cs) d = run_gate cs (snd (gate c d))"

text \<open>The precondition of a grant: the amount is at least 1.\<close>

fun grant_ok :: "gate_call \<Rightarrow> bool" where
  "grant_ok (Grant u n) = (1 \<le> n)"
| "grant_ok c = True"

definition no_negative :: "disk \<Rightarrow> bool" where
  "no_negative d \<longleftrightarrow> (\<forall>v x. allowances (loadDb d) v = Some x \<longrightarrow> 0 \<le> x)"

text \<open>Modal submissions one after the other, with the reply to each.\<close>

fun submit_all :: "modal_submit list \<Rightarrow> disk \<Rightarrow> modal_reply list \<times> disk" where
  "submit_all [] d = ([], d)"
| "submit_all (s # ss) d =
     (let (r, d1) = feedback_modal s d;
          (rs, d2) = submit_all ss d1
      in (r # rs, d2))"

text \<open>
  A submission that gets through: the rating parses to a number from 1 to 5, fetching
  the log channel does not throw, the embed can be built, and sending does not throw.
\<close>

definition rating_ok :: "modal_submit \<Rightarrow> bool" where
  "rating_ok s \<longleftrightarrow>
     (case parseInt (rating_input s) of None \<Rightarrow> False | Some r \<Rightarrow> 1 \<le> r \<and> r \<le> 5)"

definition goes_through :: "modal_submit \<Rightarrow> bool" where
  "goes_through s \<longleftrightarrow>
     rating_ok s \<and> log_channel s \<noteq> FetchThrows \<and> feedback_embed_ok s
     \<and> log_channel s \<noteq> SendThrows"

section \<open>Tickets\<close>

text \<open>
  A guild is seen through its channel cache, in the order of the cache's iteration
  (\<^verbatim>\<open>find\<close> returns the first hit). Only the fields that the handlers read are kept.
\<close>

datatype channel_type = GuildText | GuildCategory | OtherChannel

record channel =
  ch_id :: string
  ch_name :: string
  ch_type :: channel_type
  parentId :: "string option"
  topic :: "string option"

definition TICKET_CATEGORY_ID :: string where
  "TICKET_CATEGORY_ID = ''1447986703250882580''"

text \<open>\<^verbatim>\<open>TICKET_TYPES\<close> as (label, value) pairs; the emoji is not used by any handler below.\<close>

definition TICKET_TYPES :: "(string \<times> string) list" where
  "TICKET_TYPES =
     [(''General Support'', ''general''),
      (''Purchase / Order Issue'', ''purchase''),
      (''Bug / Technical Issue'', ''bug''),
      (''Other Question'', ''other'')]"

definition prettyTicketLabel :: "string \<Rightarrow> string" where
  "prettyTicketLabel v =
     (case List.find (\<lambda>t. snd t = v) TICKET_TYPES of
        Some found \<Rightarrow> fst found
      | None \<Rightarrow> v)"

text \<open>\<^verbatim>\<open>s.includes(p)\<close>: \<open>p\<close> occurs in \<open>s\<close> at some position.\<close>

fun includes_str :: "string \<Rightarrow> string \<Rightarrow> bool" where
  "includes_str [] p = (p = [])"
| "includes_str (c # cs) p = (take (length p) (c # cs) = p \<or> includes_str cs p)"

text \<open>
  The regular expression \<^verbatim>\<open>/UserID:(\d{17,19})/\<close>. \<open>match_at s\<close> tries it at the start of
  \<open>s\<close>: the literal text, then as many digits as there are, at most 19 and at least 17
  (the group is greedy and nothing follows it). \<open>topic_match\<close> is \<^verbatim>\<open>s.match(...)\<close>: the
  leftmost position where the expression matches, and the text of its group.
\<close>

fun strip_prefix :: "string \<Rightarrow> string \<Rightarrow> string option" where
  "strip_prefix [] s = Some s"
| "strip_prefix (p # ps) [] = None"
| "strip_prefix (p # ps) (c # cs) = (if p = c then strip_prefix ps cs else None)"

definition match_at :: "string \<Rightarrow> string option" where
  "match_at s =
     (case strip_prefix ''UserID:'' s of
        None \<Rightarrow> None
      | Some r \<Rightarrow>
          let ds = takeWhile is_digit (take 19 r)
          in if 17 \<le> length ds then Some ds else None)"

fun topic_match :: "string \<Rightarrow> string option" where
  "topic_match [] = match_at []"
| "topic_match (c # cs) =
     (case match_at (c # cs) of
        Some u \<Rightarrow> Some u
      | None \<Rightarrow> topic_match cs)"

text \<open>The topic written when a ticket channel is created.\<close>

definition ticket_topic :: "string \<Rightarrow> string \<Rightarrow> string \<Rightarrow> string" where
  "ticket_topic tag uid label =
     ''Ticket for '' @ tag @ '' (UserID:'' @ uid @ '') | Type: '' @ label"

text \<open>
  The channel name: the user name in lower case without anything but \<^verbatim>\<open>a-z0-9\<close>, or
  \<^verbatim>\<open>user\<close> when nothing is left, after \<^verbatim>\<open>ticket-\<close>, cut at 90 characters.
\<close>

definition to_lower :: "char \<Rightarrow> char" where
  "to_lower c =
     (let n = (of_char c :: nat) in if 65 \<le> n \<and> n \<le> 90 then char_of (n + 32) else c)"

definition is_lower_alnum :: "char \<Rightarrow> bool" where
  "is_lower_alnum c \<longleftrightarrow>
     (let n = (of_char c :: nat) in (97 \<le> n \<and> n \<le> 122) \<or> (48 \<le> n \<and> n \<le> 57))"

definition channel_name :: "string \<Rightarrow> string" where
  "channel_name uname =
     (let cleaned = filter is_lower_alnum (map to_lower uname);
          baseName = (if cleaned = [] then ''user'' else cleaned)
      in take 90 (''ticket-'' @ baseName))"

text \<open>
  One use of the select menu. \<open>in_server\<close> says that the interaction has a guild;
  \<open>new_id\<close> is the id Discord gives the new channel, or nothing when
  \<^verbatim>\<open>guild.channels.create\<close> throws; \<open>intro_sent\<close> says that posting the first message
  into the new channel did not throw.
\<close>

record ticket_request =
  in_server :: bool
  req_user :: string
  req_username :: string
  req_tag :: string
  selection :: string
  new_id :: "string option"
  intro_sent :: bool

datatype ticket_reply =
  NoGuild
| BadCategory
| AlreadyOpen channel
| TicketCreated channel
| TicketError

definition is_ticket_of :: "string \<Rightarrow> channel \<Rightarrow> bool" where
  "is_ticket_of uid ch \<longleftrightarrow>
     parentId ch = Some TICKET_CATEGORY_ID
     \<and> (case topic ch of
          None \<Rightarrow> False
        | Some t \<Rightarrow> t \<noteq> [] \<and> includes_str t (''UserID:'' @ uid))"

definition ticket_select :: "ticket_request \<Rightarrow> channel list \<Rightarrow> ticket_reply \<times> channel list" where
  "ticket_select r chans =
     (if \<not> in_server r then (NoGuild, chans)
      else
        (case List.find (\<lambda>ch. ch_id ch = TICKET_CATEGORY_ID) chans of
           None \<Rightarrow> (BadCategory, chans)
         | Some category \<Rightarrow>
             if ch_type category \<noteq> GuildCategory then (BadCategory, chans)
             else
               (case List.find (is_ticket_of (req_user r)) chans of
                  Some existing \<Rightarrow> (AlreadyOpen existing, chans)
                | None \<Rightarrow>
                    (case new_id r of
                       None \<Rightarrow> (TicketError, chans)
                     | Some i \<Rightarrow>
                         let newChannel =
                               \<lparr>ch_id = i,
                                ch_name = channel_name (req_username r),
                                ch_type = GuildText,
                                parentId = Some TICKET_CATEGORY_ID,
                                topic = Some (ticket_topic (req_tag r) (req_user r)
                                               (prettyTicketLabel (selection r)))\<rparr>
                         in if intro_sent r then (TicketCreated newChannel, chans @ [newChannel])
                            else (TicketError, chans @ [newChannel])))))"

text \<open>
  The configured category is in the cache and is a category; user \<open>uid\<close> has a ticket
  when some channel passes the test that \<^verbatim>\<open>find\<close> applies.
\<close>

definition category_ok :: "channel list \<Rightarrow> bool" where
  "category_ok chans \<longleftrightarrow>
     (case List.find (\<lambda>ch. ch_id ch = TICKET_CATEGORY_ID) chans of
        None \<Rightarrow> False
      | Some category \<Rightarrow> ch_type category = GuildCategory)"

definition has_ticket :: "string \<Rightarrow> channel list \<Rightarrow> bool" where
  "has_ticket uid chans \<longleftrightarrow> list_ex (is_ticket_of uid) chans"

text \<open>Requests handled one after the other, none overlapping another.\<close>

fun select_all :: "ticket_request list \<Rightarrow> channel list \<Rightarrow> channel list" where
  "select_all [] chans = chans"
| "select_all (r # rs) chans = select_all rs (snd (ticket_select r chans))"

text \<open>
  The number of channels that the requests of user \<open>uid\<close> add in such a run.
\<close>

fun created_for :: "string \<Rightarrow> ticket_request list \<Rightarrow> channel list \<Rightarrow> nat" where
  "created_for uid [] chans = 0"
| "created_for uid (r # rs) chans =
     (if req_user r = uid
      then length (snd (ticket_select r chans)) - length chans
      else 0)
     + created_for uid rs (snd (ticket_select r chans))"

text \<open>
  The Notify button: \<open>press_roles\<close> are the roles of the member who pressed it,
  \<open>press_topic\<close> the topic of the channel, \<open>fetched\<close> and \<open>dm_sent\<close> say whether fetching
  the owner and sending the direct message worked.
\<close>

record notify_press =
  press_roles :: "string list"
  press_topic :: "string option"
  fetched :: bool
  dm_sent :: bool

datatype notify_reply = NotifyNoPermission | NoOwner | FetchFailed | Notified string | DmFailed string

definition ticket_notify :: "config \<Rightarrow> notify_press \<Rightarrow> notify_reply" where
  "ticket_notify cfg p =
     (if requiredRoleId cfg \<notin> set (press_roles p) then NotifyNoPermission
      else
        let t = (case press_topic p of None \<Rightarrow> [] | Some x \<Rightarrow> x) in
        case topic_match t of
          None \<Rightarrow> NoOwner
        | Some uid \<Rightarrow>
            if \<not> fetched p then FetchFailed
            else if dm_sent p then Notified uid else DmFailed uid)"

text \<open>A Discord user id as the pattern expects it: 17 to 19 decimal digits.\<close>

definition is_user_id :: "string \<Rightarrow> bool" where
  "is_user_id uid \<longleftrightarrow> 17 \<le> length uid \<and> length uid \<le> 19 \<and> list_all is_digit uid"

section \<open>Example data\<close>

definition cfg0 :: config where
  "cfg0 = \<lparr>requiredRoleId = ''900'', logChannelId = ''800''\<rparr>"

definition ex_allow :: "string \<Rightarrow> string \<Rightarrow> allow_message" where
  "ex_allow u txt = \<lparr>roles = [''900''], mention = Some u, content = txt\<rparr>"

definition ex_entry :: "string \<Rightarrow> string option \<Rightarrow> entry" where
  "ex_entry u m = \<lparr>userId = u, username = ''ann'', rating = 4, comment = ''great'',
     platform = Web, createdAt = ''t'', messageId = m, channelId = None\<rparr>"

definition ex_sub :: "string \<Rightarrow> string \<Rightarrow> log_outcome \<Rightarrow> modal_submit" where
  "ex_sub u r l = \<lparr>user_id = u, user_name = ''ann'', rating_input = r, comment_input = ''great'',
     in_guild = True, client_status = Some (False, True, False), embed_base = True,
     log_channel = l, now = ''t''\<rparr>"

definition ex_category :: channel where
  "ex_category = \<lparr>ch_id = TICKET_CATEGORY_ID, ch_name = ''tickets'', ch_type = GuildCategory,
     parentId = None, topic = None\<rparr>"

definition ex_ticket :: channel where
  "ex_ticket = \<lparr>ch_id = ''c1'', ch_name = ''ticket-ann'', ch_type = GuildText,
     parentId = Some TICKET_CATEGORY_ID,
     topic = Some ''Ticket for ann (UserID:12345678901234567) | Type: Bug / Technical Issue''\<rparr>"

definition ex_request :: "string \<Rightarrow> string \<Rightarrow> string \<Rightarrow> ticket_request" where
  "ex_request uid tag i = \<lparr>in_server = True, req_user = uid, req_username = ''Ann'',
     req_tag = tag, selection = ''bug'', new_id = Some i, intro_sent = True\<rparr>"

text \<open>A disk to run examples on: no file yet, nothing written.\<close>

definition fresh_disk :: disk where
  "fresh_disk = \<lparr>file_content = Unreadable, writes = 0\<rparr>"

section \<open>Basic facts about the store\<close>

lemma loadDb_saveDb: "loadDb (saveDb x d) = x"
  by (simp add: loadDb_def saveDb_def serialize_def)

lemma writes_saveDb: "writes (saveDb x d) = Suc (writes d)"
  by (simp add: saveDb_def)

lemma file_content_saveDb: "file_content (saveDb x d) = serialize x"
  by (simp add: saveDb_def)

lemma feedback_addFeedback: "feedback (loadDb (addFeedback e d)) = feedback (loadDb d) @ [e]"
  by (simp add: addFeedback_def Let_def loadDb_saveDb)

lemma allowances_addFeedback: "allowances (loadDb (addFeedback e d)) = allowances (loadDb d)"
  by (simp add: addFeedback_def Let_def loadDb_saveDb)

lemma getAllowance_addFeedback: "getAllowance u (addFeedback e d) = getAllowance u d"
  by (simp add: getAllowance_def allowances_addFeedback)

lemma getAllowance_lookup:
  "getAllowance u d = (case allowances (loadDb d) u of None \<Rightarrow> 0 | Some v \<Rightarrow> v)"
  by (simp add: getAllowance_def split: option.splits)

lemma feedback_setAllowance: "feedback (loadDb (setAllowance u n d)) = feedback (loadDb d)"
  by (simp add: setAllowance_def Let_def loadDb_saveDb)

lemma getAllowance_setAllowance:
  "getAllowance v (setAllowance u n d) = (if v = u then n else getAllowance v d)"
  by (simp add: getAllowance_lookup setAllowance_def Let_def loadDb_saveDb)

lemma fst_decrementAllowance:
  "fst (decrementAllowance u d) =
     (if getAllowance u d > 0 then js_sub1 (getAllowance u d) else getAllowance u d)"
  by (simp add: decrementAllowance_def getAllowance_lookup Let_def split: option.splits)

lemma snd_decrementAllowance_unchanged:
  "getAllowance u d \<le> 0 \<Longrightarrow> snd (decrementAllowance u d) = d"
  by (simp add: decrementAllowance_def getAllowance_lookup Let_def split: option.splits)

lemma getAllowance_decrementAllowance:
  "getAllowance v (snd (decrementAllowance u d)) =
     (if v = u \<and> getAllowance u d > 0 then js_sub1 (getAllowance u d) else getAllowance v d)"
  by (simp add: decrementAllowance_def getAllowance_lookup Let_def loadDb_saveDb
      split: option.splits)

lemma feedback_decrementAllowance:
  "feedback (loadDb (snd (decrementAllowance u d))) = feedback (loadDb d)"
  by (simp add: decrementAllowance_def Let_def loadDb_saveDb split: option.splits)

lemma allowances_decrementAllowance_other:
  "v \<noteq> u \<Longrightarrow> allowances (loadDb (snd (decrementAllowance u d))) v = allowances (loadDb d) v"
  by (simp add: decrementAllowance_def Let_def loadDb_saveDb split: option.splits)

lemma js_sub1_exact: "v \<le> 9007199254740992 \<Longrightarrow> js_sub1 v = v - 1"
  by (simp add: js_sub1_def)

lemma js_sub1_nonneg: "0 < v \<Longrightarrow> 0 \<le> js_sub1 v"
  by (simp add: js_sub1_def)

lemma feedback_fresh_disk: "feedback (loadDb fresh_disk) = []"
  by (simp add: loadDb_def fresh_disk_def)

lemma getAllowance_fresh_disk: "getAllowance u fresh_disk = 0"
  by (simp add: getAllowance_def loadDb_def fresh_disk_def)

lemma filter_single:
  "length (filter P xs) = 1 \<Longrightarrow>
   \<exists>as r bs. xs = as @ r # bs \<and> P r \<and> filter (\<lambda>x. \<not> P x) xs = as @ bs"
proof (induction xs)
  case Nil
  then show ?case by simp
next
  case (Cons x xs)
  show ?case
  proof (cases "P x")
    case True
    with Cons.prems have "filter P xs = []" by simp
    then have "filter (\<lambda>x. \<not> P x) xs = xs"
      by (simp add: filter_empty_conv)
    with True have "x # xs = [] @ x # xs \<and> P x \<and> filter (\<lambda>x. \<not> P x) (x # xs) = [] @ xs"
      by simp
    then show ?thesis by blast
  next
    case False
    with Cons.prems have "length (filter P xs) = 1" by simp
    from Cons.IH [OF this] obtain as r bs where
      "xs = as @ r # bs" "P r" "filter (\<lambda>x. \<not> P x) xs = as @ bs" by blast
    with False have "x # xs = (x # as) @ r # bs \<and> P r \<and> filter (\<lambda>x. \<not> P x) (x # xs) = (x # as) @ bs"
      by simp
    then show ?thesis by blast
  qed
qed

subsection \<open>Allowances stay non-negative\<close>

lemma no_negative_iff: "no_negative d \<longleftrightarrow> (\<forall>v. 0 \<le> getAllowance v d)"
proof
  assume n: "no_negative d"
  show "\<forall>v. 0 \<le> getAllowance v d"
  proof
    fix v
    show "0 \<le> getAllowance v d"
      using n by (cases "allowances (loadDb d) v") (auto simp: getAllowance_lookup no_negative_def)
  qed
next
  assume g: "\<forall>v. 0 \<le> getAllowance v d"
  show "no_negative d"
    unfolding no_negative_def
  proof (intro allI impI)
    fix v x
    assume "allowances (loadDb d) v = Some x"
    then have "getAllowance v d = x" by (simp add: getAllowance_lookup)
    with g show "0 \<le> x" by metis
  qed
qed

lemma allowances_removeFeedbackByMessageId:
  "allowances (loadDb (removeFeedbackByMessageId m d)) = allowances (loadDb d)"
  by (simp add: removeFeedbackByMessageId_def Let_def loadDb_saveDb)

lemma getAllowance_removeFeedbackByMessageId:
  "getAllowance v (removeFeedbackByMessageId m d) = getAllowance v d"
  by (simp add: getAllowance_def allowances_removeFeedbackByMessageId)

lemma getAllowance_messageDelete: "getAllowance v (messageDelete cfg m d) = getAllowance v d"
  by (simp add: messageDelete_def getAllowance_removeFeedbackByMessageId split: option.splits)

lemma no_negative_setAllowance: "no_negative d \<Longrightarrow> 0 \<le> n \<Longrightarrow> no_negative (setAllowance u n d)"
  by (simp add: no_negative_iff getAllowance_setAllowance)

lemma no_negative_decrementAllowance: "no_negative d \<Longrightarrow> no_negative (snd (decrementAllowance u d))"
  by (simp add: no_negative_iff getAllowance_decrementAllowance js_sub1_nonneg)

lemma no_negative_addFeedback: "no_negative d \<Longrightarrow> no_negative (addFeedback e d)"
  by (simp add: no_negative_iff getAllowance_addFeedback)

lemma snd_persist:
  "snd (persist s r sent d) =
     snd (decrementAllowance (user_id s)
       (addFeedback \<lparr>userId = user_id s, username = user_name s, rating = r,
               comment = comment_input s, platform = detect_platform s,
               createdAt = now s,
               messageId = map_option fst sent, channelId = map_option snd sent\<rparr> d))"
  by (simp add: persist_def Let_def split: prod.splits)

lemma no_negative_persist: "no_negative d \<Longrightarrow> no_negative (snd (persist s r sent d))"
  by (simp add: snd_persist no_negative_decrementAllowance no_negative_addFeedback)

lemma no_negative_feedback_modal: "no_negative d \<Longrightarrow> no_negative (snd (feedback_modal s d))"
  by (simp add: feedback_modal_def Let_def no_negative_persist split: option.splits log_outcome.splits)

lemma no_negative_allow_command: "no_negative d \<Longrightarrow> no_negative (snd (allow_command cfg m d))"
  by (simp add: allow_command_def Let_def no_negative_setAllowance split: option.splits)

lemma no_negative_messageDelete: "no_negative d \<Longrightarrow> no_negative (messageDelete cfg m d)"
  by (simp add: no_negative_iff getAllowance_messageDelete)

lemma no_negative_step: "no_negative d \<Longrightarrow> no_negative (step cfg e d)"
  by (cases e) (simp_all add: no_negative_allow_command no_negative_feedback_modal
      no_negative_messageDelete api_feedback_logs_def Let_def)

lemma no_negative_run: "no_negative d \<Longrightarrow> no_negative (run cfg es d)"
  by (induction es arbitrary: d) (simp_all add: no_negative_step)

lemma snd_gate_Decrement: "snd (gate (Decrement u) d) = snd (decrementAllowance u d)"
  by (simp add: case_prod_beta)

lemma no_negative_gate: "no_negative d \<Longrightarrow> grant_ok c \<Longrightarrow> no_negative (snd (gate c d))"
  by (cases c) (simp_all add: no_negative_setAllowance no_negative_decrementAllowance case_prod_beta)

lemma no_negative_run_gate: "no_negative d \<Longrightarrow> list_all grant_ok cs \<Longrightarrow> no_negative (run_gate cs d)"
  by (induction cs arbitrary: d) (simp_all add: no_negative_gate)

lemma decrementAllowance_at_zero: "getAllowance u d = 0 \<Longrightarrow> decrementAllowance u d = (0, d)"
  by (simp add: decrementAllowance_def getAllowance_lookup Let_def split: option.splits)

subsection \<open>The modal handler\<close>

lemma feedback_modal_bad_rating:
  "\<not> rating_ok s \<Longrightarrow> feedback_modal s d = (RatingError, d)"
  by (auto simp: feedback_modal_def rating_ok_def split: option.splits)

lemma feedback_modal_changes:
  "snd (feedback_modal s d) \<noteq> d \<Longrightarrow> rating_ok s"
  using feedback_modal_bad_rating [of s d] by (metis snd_conv)

lemma persist_result:
  "0 < getAllowance (user_id s) d \<Longrightarrow>
   fst (persist s r sent d) = Submitted (js_sub1 (getAllowance (user_id s) d))
   \<and> getAllowance (user_id s) (snd (persist s r sent d)) = js_sub1 (getAllowance (user_id s) d)
   \<and> length (feedback (loadDb (snd (persist s r sent d)))) = Suc (length (feedback (loadDb d)))"
  by (simp add: persist_def Let_def case_prod_beta fst_decrementAllowance
      getAllowance_decrementAllowance getAllowance_addFeedback feedback_decrementAllowance
      feedback_addFeedback)

lemma feedback_modal_accept:
  assumes "goes_through s" "0 < getAllowance (user_id s) d"
  shows "fst (feedback_modal s d) = Submitted (js_sub1 (getAllowance (user_id s) d))
   \<and> getAllowance (user_id s) (snd (feedback_modal s d)) = js_sub1 (getAllowance (user_id s) d)
   \<and> length (feedback (loadDb (snd (feedback_modal s d)))) = Suc (length (feedback (loadDb d)))"
proof -
  from assms(1) obtain r where r: "parseInt (rating_input s) = Some r" "1 \<le> r" "r \<le> 5"
    by (cases "parseInt (rating_input s)") (auto simp: goes_through_def rating_ok_def)
  from assms(1) have l: "log_channel s \<noteq> FetchThrows" "log_channel s \<noteq> SendThrows"
    and e: "feedback_embed_ok s"
    by (simp_all add: goes_through_def)
  from l obtain sent where "feedback_modal s d = persist s r sent d"
    using r e assms(2)
    by (cases "log_channel s") (auto simp: feedback_modal_def Let_def)
  then show ?thesis using persist_result [OF assms(2)] by simp
qed

lemma feedback_modal_embed_fails:
  "\<not> feedback_embed_ok s \<Longrightarrow> snd (feedback_modal s d) = d \<and> (\<forall>k. fst (feedback_modal s d) \<noteq> Submitted k)"
  by (simp add: feedback_modal_def Let_def split: option.splits log_outcome.splits)

lemma feedback_modal_long_comment:
  assumes "1024 < length (comment_input s)" and "rating_ok s"
    and "0 < getAllowance (user_id s) d"
  shows "feedback_modal s d = (SaveError, d)"
proof -
  from assms(1) have "\<not> feedback_embed_ok s"
    by (auto simp: feedback_embed_ok_def embed_comment_value_def)
  with assms(2,3) show ?thesis
    by (cases "log_channel s")
      (auto simp: feedback_modal_def rating_ok_def Let_def split: option.splits)
qed

lemma feedback_modal_denied:
  "getAllowance (user_id s) d \<le> 0 \<Longrightarrow>
   snd (feedback_modal s d) = d \<and> (rating_ok s \<longrightarrow> fst (feedback_modal s d) = NotAllowed)"
  by (auto simp: feedback_modal_def Let_def rating_ok_def split: option.splits)

lemma submit_all_exhausts:
  "\<forall>s\<in>set ss. user_id s = u \<and> goes_through s \<Longrightarrow>
   getAllowance u d = int (length ss) \<Longrightarrow>
   int (length ss) \<le> 9007199254740992 \<Longrightarrow>
   fst (submit_all ss d) = map (\<lambda>k. Submitted (int k)) (rev [0..<length ss])
   \<and> getAllowance u (snd (submit_all ss d)) = 0
   \<and> length (feedback (loadDb (snd (submit_all ss d)))) = length (feedback (loadDb d)) + length ss"
proof (induction ss arbitrary: d)
  case Nil
  then show ?case by simp
next
  case (Cons s ss)
  from Cons.prems have s: "user_id s = u" "goes_through s" by simp_all
  from Cons.prems have pos: "0 < getAllowance (user_id s) d" using s by simp
  from Cons.prems s have ex: "js_sub1 (getAllowance (user_id s) d) = int (length ss)"
    by (simp add: js_sub1_exact)
  note acc = feedback_modal_accept [OF s(2) pos]
  let ?d1 = "snd (feedback_modal s d)"
  from acc s ex have g1: "getAllowance u ?d1 = int (length ss)" by simp
  from Cons.prems have b: "int (length ss) \<le> 9007199254740992" by simp
  from Cons.prems have "\<forall>s\<in>set ss. user_id s = u \<and> goes_through s" by simp
  note ih = Cons.IH [OF this g1 b]
  have un: "submit_all (s # ss) d = (fst (feedback_modal s d) # fst (submit_all ss ?d1), snd (submit_all ss ?d1))"
    by (simp add: case_prod_beta Let_def)
  from acc ex have r: "fst (feedback_modal s d) = Submitted (int (length ss))" by simp
  show ?case unfolding un using ih r acc by simp
qed

lemma submit_all_stuck:
  assumes "goes_through s" and "0 < k" and "js_sub1 k = k"
  shows "getAllowance (user_id s) d = k \<Longrightarrow>
         fst (submit_all (replicate n s) d) = replicate n (Submitted k)
         \<and> getAllowance (user_id s) (snd (submit_all (replicate n s) d)) = k"
proof (induction n arbitrary: d)
  case 0
  then show ?case by simp
next
  case (Suc n)
  from Suc.prems assms(2) have pos: "0 < getAllowance (user_id s) d" by simp
  note acc = feedback_modal_accept [OF assms(1) pos]
  let ?d1 = "snd (feedback_modal s d)"
  from acc Suc.prems assms(3) have g1: "getAllowance (user_id s) ?d1 = k" by simp
  note ih = Suc.IH [OF g1]
  have un: "submit_all (replicate (Suc n) s) d =
      (fst (feedback_modal s d) # fst (submit_all (replicate n s) ?d1),
       snd (submit_all (replicate n s) ?d1))"
    by (simp add: case_prod_beta Let_def)
  from acc Suc.prems assms(3) have r: "fst (feedback_modal s d) = Submitted k" by simp
  show ?case unfolding un using ih r by simp
qed

subsection \<open>The grant command and the log API\<close>


lemma feedback_run_add:
  "feedback (loadDb (foldl (\<lambda>d e. addFeedback e d) d es)) = feedback (loadDb d) @ es"
  by (induction es arbitrary: d) (simp_all add: feedback_addFeedback)

subsection \<open>Topics and tickets\<close>

lemma strip_prefix_snoc:
  "c \<notin> set p \<Longrightarrow>
   strip_prefix p (s @ c # rest) =
     (case strip_prefix p s of None \<Rightarrow> None | Some r \<Rightarrow> Some (r @ c # rest))"
  by (induction p s rule: strip_prefix.induct) auto

lemma takeWhile_take_snoc:
  "\<not> P c \<Longrightarrow> takeWhile P (take n (r @ c # rest)) = takeWhile P (take n r)"
proof (induction r arbitrary: n)
  case Nil
  then show ?case by (cases n) simp_all
next
  case (Cons x r)
  then show ?case by (cases n) simp_all
qed

lemma match_at_snoc:
  assumes "\<not> is_digit c" "c \<notin> set ''UserID:''"
  shows "match_at (s @ c # rest) = match_at s"
proof (cases "strip_prefix ''UserID:'' s")
  case None
  then show ?thesis
    by (simp only: match_at_def strip_prefix_snoc [OF assms(2)] option.case)
next
  case (Some r)
  have "takeWhile is_digit (take 19 (r @ c # rest)) = takeWhile is_digit (take 19 r)"
    using assms(1) by (rule takeWhile_take_snoc)
  then show ?thesis
    by (simp only: match_at_def strip_prefix_snoc [OF assms(2)] Some option.case)
qed

lemma topic_match_skip:
  assumes "\<not> is_digit c" "c \<notin> set ''UserID:''"
  shows "topic_match tag = None \<Longrightarrow> topic_match (tag @ c # rest) = topic_match (c # rest)"
proof (induction tag)
  case Nil
  then show ?case by simp
next
  case (Cons x xs)
  from Cons.prems have m: "match_at (x # xs) = None" and t: "topic_match xs = None"
    by (simp_all split: option.splits)
  have "match_at ((x # xs) @ c # rest) = None"
    using match_at_snoc [OF assms, of "x # xs" rest] m by simp
  then have "topic_match ((x # xs) @ c # rest) = topic_match (xs @ c # rest)"
    by simp
  with Cons.IH [OF t] show ?case by simp
qed

lemma takeWhile_all: "list_all P xs \<Longrightarrow> takeWhile P (xs @ ys) = xs @ takeWhile P ys"
  by (induction xs) simp_all

lemma match_at_id:
  assumes "is_user_id uid"
  shows "match_at (''UserID:'' @ uid @ CHR '')'' # rest) = Some uid"
proof -
  from assms have l: "17 \<le> length uid" "length uid \<le> 19" and d: "list_all is_digit uid"
    by (simp_all add: is_user_id_def)
  have nd: "\<not> is_digit CHR '')''" by (simp add: is_digit_def)
  have "take 19 (uid @ CHR '')'' # rest) = uid @ take (19 - length uid) (CHR '')'' # rest)"
    using l by simp
  moreover have "takeWhile is_digit (take (19 - length uid) (CHR '')'' # rest)) = []"
    using nd by (cases "19 - length uid") simp_all
  ultimately have "takeWhile is_digit (take 19 (uid @ CHR '')'' # rest)) = uid"
    using d by (simp add: takeWhile_all)
  then show ?thesis using l by (simp add: match_at_def)
qed

lemma topic_match_ticket_topic:
  assumes "is_user_id uid" "topic_match tag = None"
  shows "topic_match (ticket_topic tag uid label) = Some uid"
proof -
  have sp: "\<not> is_digit CHR '' ''" "CHR '' '' \<notin> set ''UserID:''"
    by (simp_all add: is_digit_def)
  let ?rest = "''(UserID:'' @ uid @ '') | Type: '' @ label"
  have a: "topic_match (ticket_topic tag uid label) = topic_match (tag @ CHR '' '' # ?rest)"
    by (simp add: ticket_topic_def match_at_def)
  have b: "topic_match (tag @ CHR '' '' # ?rest) = topic_match (CHR '' '' # ?rest)"
    by (rule topic_match_skip [OF sp assms(2)])
  have c: "topic_match (CHR '' '' # ?rest) = match_at (''UserID:'' @ uid @ CHR '')'' # ('' | Type: '' @ label))"
    using match_at_id [OF assms(1), of "'' | Type: '' @ label"]
    by (simp add: match_at_def)
  show ?thesis using a b c match_at_id [OF assms(1)] by simp
qed

text \<open>
  The hypothesis on the tag is needed: \<^verbatim>\<open>match\<close> returns the leftmost match, so digits
  after \<^verbatim>\<open>UserID:\<close> inside a tag would be found before the id.
\<close>

lemma topic_match_leftmost:
  "topic_match (ticket_topic ''UserID:11111111111111111'' ''22222222222222222'' ''General Support'')
     = Some ''11111111111111111''"
  by (simp add: ticket_topic_def match_at_def is_digit_def)

lemma strip_prefix_Some: "strip_prefix p s = Some r \<Longrightarrow> s = p @ r"
  by (induction p s rule: strip_prefix.induct) (auto split: if_splits)

lemma match_at_colon: "match_at s = Some u \<Longrightarrow> CHR '':'' \<in> set s"
proof -
  assume "match_at s = Some u"
  then obtain r where "strip_prefix ''UserID:'' s = Some r"
    by (cases "strip_prefix ''UserID:'' s") (simp_all add: match_at_def)
  then have "s = ''UserID:'' @ r" by (rule strip_prefix_Some)
  then have "CHR '':'' \<in> set (''UserID:'' @ r) \<Longrightarrow> CHR '':'' \<in> set s" by simp
  then show ?thesis by simp
qed

lemma topic_match_no_colon: "CHR '':'' \<notin> set s \<Longrightarrow> topic_match s = None"
proof (induction s)
  case Nil
  then show ?case by (simp add: match_at_def)
next
  case (Cons c cs)
  from Cons.prems have "match_at (c # cs) = None"
    using match_at_colon [of "c # cs"] by (cases "match_at (c # cs)") auto
  moreover from Cons.prems have "topic_match cs = None" by (simp add: Cons.IH)
  ultimately show ?case by simp
qed

lemma includes_str_here: "includes_str (p @ ys) p"
proof (cases "p @ ys")
  case Nil
  then show ?thesis by simp
next
  case (Cons a l)
  have "take (length p) (p @ ys) = p" by simp
  then have "take (length p) (a # l) = p" by (simp only: Cons)
  then show ?thesis by (simp only: Cons includes_str.simps simp_thms)
qed

lemma includes_str_append: "includes_str (xs @ p @ ys) p"
proof (induction xs)
  case Nil
  show ?case using includes_str_here [of p ys] by simp
next
  case (Cons x xs)
  then show ?case by simp
qed

lemma includes_str_ticket_topic: "includes_str (ticket_topic tag uid label) (''UserID:'' @ uid)"
proof -
  have "ticket_topic tag uid label =
          (''Ticket for '' @ tag @ '' ('') @ (''UserID:'' @ uid) @ ('') | Type: '' @ label)"
    by (simp add: ticket_topic_def)
  then show ?thesis by (simp only: includes_str_append)
qed

lemma ticket_topic_nonempty: "ticket_topic tag uid label \<noteq> []"
  by (simp add: ticket_topic_def)

lemma find_ticket_None: "List.find (is_ticket_of uid) chans = None \<longleftrightarrow> \<not> has_ticket uid chans"
  by (auto simp: find_None_iff has_ticket_def list_ex_iff)

lemma ticket_select_has:
  assumes "has_ticket (req_user r) chans"
  shows "snd (ticket_select r chans) = chans"
proof -
  from assms obtain e where "List.find (is_ticket_of (req_user r)) chans = Some e"
    using find_ticket_None [of "req_user r" chans] by (cases "List.find (is_ticket_of (req_user r)) chans") auto
  then show ?thesis
    by (simp add: ticket_select_def split: option.splits)
qed

lemma ticket_select_existing:
  assumes "in_server r" "category_ok chans" "has_ticket (req_user r) chans"
  shows "\<exists>ch. ticket_select r chans = (AlreadyOpen ch, chans) \<and> ch \<in> set chans
              \<and> is_ticket_of (req_user r) ch"
proof -
  from assms(3) obtain e where e: "List.find (is_ticket_of (req_user r)) chans = Some e"
    using find_ticket_None [of "req_user r" chans] by (cases "List.find (is_ticket_of (req_user r)) chans") auto
  then have p: "e \<in> set chans \<and> is_ticket_of (req_user r) e"
    by (auto simp: find_Some_iff)
  from assms(2) obtain c where c: "List.find (\<lambda>ch. ch_id ch = TICKET_CATEGORY_ID) chans = Some c"
     "ch_type c = GuildCategory"
    by (auto simp: category_ok_def split: option.splits)
  have "ticket_select r chans = (AlreadyOpen e, chans)"
    using assms(1) c e by (simp add: ticket_select_def)
  with p show ?thesis by blast
qed

lemma is_ticket_of_new:
  "is_ticket_of uid \<lparr>ch_id = i, ch_name = n, ch_type = t,
     parentId = Some TICKET_CATEGORY_ID, topic = Some (ticket_topic tag uid label)\<rparr>"
  unfolding is_ticket_of_def
  using includes_str_ticket_topic [of tag uid label] ticket_topic_nonempty [of tag uid label]
  by simp

lemma ticket_select_grows:
  "snd (ticket_select r chans) = chans
   \<or> (\<exists>ch. snd (ticket_select r chans) = chans @ [ch] \<and> is_ticket_of (req_user r) ch)"
  by (auto simp: ticket_select_def Let_def is_ticket_of_new split: option.splits)

lemma has_ticket_mono: "has_ticket uid chans \<Longrightarrow> has_ticket uid (snd (ticket_select r chans))"
  using ticket_select_grows [of r chans] by (auto simp: has_ticket_def)

lemma created_for_zero: "has_ticket uid chans \<Longrightarrow> created_for uid rs chans = 0"
proof (induction rs arbitrary: chans)
  case Nil
  then show ?case by simp
next
  case (Cons r rs)
  from Cons.prems have "has_ticket uid (snd (ticket_select r chans))" by (rule has_ticket_mono)
  then have rest: "created_for uid rs (snd (ticket_select r chans)) = 0" by (rule Cons.IH)
  show ?case
  proof (cases "req_user r = uid")
    case True
    with Cons.prems have "snd (ticket_select r chans) = chans" by (simp add: ticket_select_has)
    with rest show ?thesis by simp
  next
    case False
    with rest show ?thesis by simp
  qed
qed

lemma created_for_le_1: "created_for uid rs chans \<le> 1"
proof (induction rs arbitrary: chans)
  case Nil
  then show ?case by simp
next
  case (Cons r rs)
  show ?case
  proof (cases "req_user r = uid")
    case False
    then show ?thesis using Cons.IH [of "snd (ticket_select r chans)"] by simp
  next
    case True
    from ticket_select_grows [of r chans] show ?thesis
    proof
      assume "snd (ticket_select r chans) = chans"
      then show ?thesis using Cons.IH [of chans] by simp
    next
      assume "\<exists>ch. snd (ticket_select r chans) = chans @ [ch] \<and> is_ticket_of (req_user r) ch"
      then obtain ch where ch: "snd (ticket_select r chans) = chans @ [ch]" "is_ticket_of uid ch"
        using True by blast
      then have "has_ticket uid (snd (ticket_select r chans))" by (simp add: has_ticket_def)
      then have "created_for uid rs (snd (ticket_select r chans)) = 0" by (rule created_for_zero)
      with ch show ?thesis by simp
    qed
  qed
qed

lemma ticket_select_created_topic:
  "ticket_select r chans = (TicketCreated ch, chans') \<Longrightarrow>
   topic ch = Some (ticket_topic (req_tag r) (req_user r) (prettyTicketLabel (selection r)))"
  by (auto simp: ticket_select_def Let_def split: option.splits if_splits)

lemmas parse_simps = parseInt_def is_space_def is_digit_def digits_value_def digit_value_def

section \<open>The claims\<close>

subsection \<open>C10: what a decrement touches\<close>

text \<open>
  C10. For every user \<open>u\<close> and every disk, \<^verbatim>\<open>decrementAllowance(u)\<close> leaves the allowance
  entry of every other user and the whole feedback list as they were, and the number it
  returns is the allowance of \<open>u\<close> that the store holds after the call (what
  \<^verbatim>\<open>getAllowance(u)\<close> reads there).
\<close>

theorem decrementAllowance_frame:
  "(\<forall>v. v \<noteq> u \<longrightarrow>
      allowances (loadDb (snd (decrementAllowance u d))) v = allowances (loadDb d) v)
   \<and> feedback (loadDb (snd (decrementAllowance u d))) = feedback (loadDb d)
   \<and> fst (decrementAllowance u d) = getAllowance u (snd (decrementAllowance u d))"
  by (simp add: allowances_decrementAllowance_other feedback_decrementAllowance
      fst_decrementAllowance getAllowance_decrementAllowance)

theorem decrementAllowance_frame_witness:
  "allowances (loadDb (snd (decrementAllowance ''1''
      (setAllowance ''2'' 7 (setAllowance ''1'' 2 fresh_disk))))) ''2'' = Some 7
   \<and> fst (decrementAllowance ''1'' (setAllowance ''2'' 7 (setAllowance ''1'' 2 fresh_disk))) = 1
   \<and> getAllowance ''1'' (snd (decrementAllowance ''1''
      (setAllowance ''2'' 7 (setAllowance ''1'' 2 fresh_disk)))) = 1"
  using decrementAllowance_frame [of "''1''" "setAllowance ''2'' 7 (setAllowance ''1'' 2 fresh_disk)"]
  by (simp add: setAllowance_def Let_def loadDb_saveDb fst_decrementAllowance getAllowance_lookup
      js_sub1_def)

subsection \<open>C1: a quota of N lasts for N submissions\<close>

text \<open>
  C1, as the claim states it, is about every integer \<open>N \<ge> 1\<close>. The allowance is a
  double, and above \<open>2^53\<close> subtracting 1 no longer counts down. After
  \<^verbatim>\<open>!allow @u 9007199254740996\<close> every submission is accepted and answered with
  9007199254740996 remaining: after 9007199254740996 accepted submissions the allowance
  is still 9007199254740996 and not 0.
\<close>

theorem quota_exhausted_counterexample:
  "goes_through (ex_sub ''1'' ''5'' NotTextBased)
   \<and> fst (submit_all (replicate 9007199254740996 (ex_sub ''1'' ''5'' NotTextBased))
        (setAllowance ''1'' 9007199254740996 fresh_disk))
       = replicate 9007199254740996 (Submitted 9007199254740996)
   \<and> getAllowance ''1''
        (snd (submit_all (replicate 9007199254740996 (ex_sub ''1'' ''5'' NotTextBased))
           (setAllowance ''1'' 9007199254740996 fresh_disk)))
       = 9007199254740996
   \<and> getAllowance ''1''
        (snd (submit_all (replicate 9007199254740996 (ex_sub ''1'' ''5'' NotTextBased))
           (setAllowance ''1'' 9007199254740996 fresh_disk)))
       \<noteq> 0"
proof -
  let ?s = "ex_sub ''1'' ''5'' NotTextBased"
  let ?d = "setAllowance ''1'' 9007199254740996 fresh_disk"
  have g: "goes_through ?s"
    by (simp add: goes_through_def rating_ok_def feedback_embed_ok_def embed_user_value_def
        embed_comment_value_def ex_sub_def parse_simps)
  have u: "user_id ?s = ''1''" by (simp add: ex_sub_def)
  have p: "(0::int) < 9007199254740996" by simp
  have k: "js_sub1 9007199254740996 = 9007199254740996" by (simp add: js_sub1_def)
  have a: "getAllowance (user_id ?s) ?d = 9007199254740996"
    by (simp add: u getAllowance_setAllowance)
  note st = submit_all_stuck [OF g p k a, of 9007199254740996]
  from st have r: "fst (submit_all (replicate 9007199254740996 ?s) ?d)
      = replicate 9007199254740996 (Submitted 9007199254740996)"
    by (rule conjunct1)
  from st have v: "getAllowance ''1'' (snd (submit_all (replicate 9007199254740996 ?s) ?d))
      = 9007199254740996"
    by (simp only: u)
  have n: "getAllowance ''1'' (snd (submit_all (replicate 9007199254740996 ?s) ?d)) \<noteq> 0"
    unfolding v by simp
  from g r v n show ?thesis by (intro conjI)
qed

text \<open>
  C1, amended. Let \<open>u\<close> be a user and \<open>1 \<le> N \<le> 2^53\<close>. After \<^verbatim>\<open>setAllowance(u, N)\<close> on
  any disk, let \<open>u\<close> submit the modal \<open>N\<close> times, each time an accepted submission: the
  rating parses to a number from 1 to 5 and nothing inside the \<^verbatim>\<open>try\<close> throws (the log
  channel is fetched, the embed is built, the message is sent when there is a channel).
  Then every one of the \<open>N\<close> submissions is answered as submitted (the replies count the
  remaining quota down from \<open>N - 1\<close> to \<open>0\<close>), the store has \<open>N\<close> more records, and the
  allowance of \<open>u\<close> is exactly 0. After that the button is refused, and any further
  submission of \<open>u\<close> leaves the disk as it is: with a valid rating it is turned away by
  the allowance check.
\<close>

theorem quota_exhausted:
  assumes "1 \<le> N" and "N \<le> 9007199254740992"
    and "length ss = N" and "\<forall>s\<in>set ss. user_id s = u \<and> goes_through s"
  shows "fst (submit_all ss (setAllowance u (int N) d)) = map (\<lambda>k. Submitted (int k)) (rev [0..<N])
     \<and> getAllowance u (snd (submit_all ss (setAllowance u (int N) d))) = 0
     \<and> length (feedback (loadDb (snd (submit_all ss (setAllowance u (int N) d)))))
         = length (feedback (loadDb d)) + N
     \<and> feedback_create u (snd (submit_all ss (setAllowance u (int N) d))) = ButtonNotAllowed
     \<and> (\<forall>s'. user_id s' = u \<longrightarrow>
          snd (feedback_modal s' (snd (submit_all ss (setAllowance u (int N) d))))
            = snd (submit_all ss (setAllowance u (int N) d))
          \<and> (rating_ok s' \<longrightarrow>
               fst (feedback_modal s' (snd (submit_all ss (setAllowance u (int N) d)))) = NotAllowed))"
proof -
  let ?d0 = "setAllowance u (int N) d"
  let ?d2 = "snd (submit_all ss ?d0)"
  have g0: "getAllowance u ?d0 = int (length ss)"
    using assms(3) by (simp add: getAllowance_setAllowance)
  have b0: "int (length ss) \<le> 9007199254740992"
    using assms(2,3) by simp
  note ex = submit_all_exhausts [OF assms(4) g0 b0]
  from ex have z: "getAllowance u ?d2 = 0" by simp
  have b: "feedback_create u ?d2 = ButtonNotAllowed"
    using z by (simp add: feedback_create_def)
  have m: "\<forall>s'. user_id s' = u \<longrightarrow> snd (feedback_modal s' ?d2) = ?d2
          \<and> (rating_ok s' \<longrightarrow> fst (feedback_modal s' ?d2) = NotAllowed)"
    using z feedback_modal_denied [of _ ?d2] by simp
  from ex assms(3) have e: "fst (submit_all ss ?d0) = map (\<lambda>k. Submitted (int k)) (rev [0..<N])
     \<and> length (feedback (loadDb ?d2)) = length (feedback (loadDb d)) + N"
    by (simp add: feedback_setAllowance)
  from e z b m show ?thesis by blast
qed

theorem quota_exhausted_witness:
  "(1::nat) \<le> 2 \<and> (2::nat) \<le> 9007199254740992
   \<and> length [ex_sub ''1'' ''4'' NotTextBased, ex_sub ''1'' ''5'' (Sent ''m1'' ''800'')] = 2
   \<and> goes_through (ex_sub ''1'' ''4'' NotTextBased)
   \<and> goes_through (ex_sub ''1'' ''5'' (Sent ''m1'' ''800''))
   \<and> fst (submit_all [ex_sub ''1'' ''4'' NotTextBased, ex_sub ''1'' ''5'' (Sent ''m1'' ''800'')]
        (setAllowance ''1'' (int 2) fresh_disk)) = [Submitted 1, Submitted 0]
   \<and> getAllowance ''1'' (snd (submit_all [ex_sub ''1'' ''4'' NotTextBased, ex_sub ''1'' ''5'' (Sent ''m1'' ''800'')]
        (setAllowance ''1'' (int 2) fresh_disk))) = 0
   \<and> fst (feedback_modal (ex_sub ''1'' ''3'' NotTextBased)
        (snd (submit_all [ex_sub ''1'' ''4'' NotTextBased, ex_sub ''1'' ''5'' (Sent ''m1'' ''800'')]
        (setAllowance ''1'' (int 2) fresh_disk)))) = NotAllowed"
proof -
  let ?ss = "[ex_sub ''1'' ''4'' NotTextBased, ex_sub ''1'' ''5'' (Sent ''m1'' ''800'')]"
  have g1: "goes_through (ex_sub ''1'' ''4'' NotTextBased)"
    by (simp add: goes_through_def rating_ok_def feedback_embed_ok_def embed_user_value_def
        embed_comment_value_def ex_sub_def parse_simps)
  have g2: "goes_through (ex_sub ''1'' ''5'' (Sent ''m1'' ''800''))"
    by (simp add: goes_through_def rating_ok_def feedback_embed_ok_def embed_user_value_def
        embed_comment_value_def ex_sub_def parse_simps)
  have g3: "rating_ok (ex_sub ''1'' ''3'' NotTextBased)"
    by (simp add: rating_ok_def ex_sub_def parse_simps)
  have u: "user_id (ex_sub ''1'' ''3'' NotTextBased) = ''1''" by (simp add: ex_sub_def)
  have h: "\<forall>s\<in>set ?ss. user_id s = ''1'' \<and> goes_through s"
    using g1 g2 by (simp add: ex_sub_def)
  have n: "(1::nat) \<le> 2" by simp
  have n2: "(2::nat) \<le> 9007199254740992" by simp
  have l: "length ?ss = 2" by simp
  have r: "map (\<lambda>k. Submitted (int k)) (rev [0..<2]) = [Submitted 1, Submitted 0]"
    by (simp add: upt_rec)
  from quota_exhausted [OF n n2 l h, of fresh_disk] g1 g2 g3 u r show ?thesis
    by simp
qed

subsection \<open>C2: which allowance helpers write the file\<close>

text \<open>
  C2, as the claim states it, says that after a grant, a get or a decrement the file has
  been written and holds the serialization of the store. It fails for a get: on a disk
  with no file yet, \<^verbatim>\<open>getAllowance\<close> answers from the empty default store and writes
  nothing, so afterwards there is still no file.
\<close>

theorem gate_persist_counterexample:
  "\<not> (writes fresh_disk < writes (snd (gate (Get ''1'') fresh_disk))
      \<and> file_content (snd (gate (Get ''1'') fresh_disk))
          = serialize (loadDb (snd (gate (Get ''1'') fresh_disk))))"
  by (simp add: fresh_disk_def)

text \<open>
  C2, amended. A grant always writes the file, and what it writes is the serialization
  of the store after the grant. A get never writes: the disk after it is the disk before
  it. A decrement writes the serialization of the store after it exactly when the
  allowance it read was positive, and otherwise leaves the disk as it was.
\<close>

theorem gate_persistence:
  "snd (gate (Grant u n) d) = saveDb (loadDb (snd (gate (Grant u n) d))) d
   \<and> snd (gate (Get u) d) = d
   \<and> snd (gate (Decrement u) d) =
       (if 0 < getAllowance u d then saveDb (loadDb (snd (gate (Decrement u) d))) d else d)"
  by (simp add: setAllowance_def decrementAllowance_def Let_def loadDb_saveDb
      getAllowance_lookup split: option.splits)

theorem gate_persistence_witness:
  "writes (snd (gate (Grant ''1'' 2) fresh_disk)) = 1
   \<and> snd (gate (Get ''1'') fresh_disk) = fresh_disk
   \<and> snd (gate (Decrement ''1'') fresh_disk) = fresh_disk
   \<and> writes (snd (gate (Decrement ''1'') (setAllowance ''1'' 2 fresh_disk))) = 2"
proof -
  have z: "getAllowance ''1'' fresh_disk = 0"
    by (simp add: getAllowance_def loadDb_def fresh_disk_def)
  have p: "getAllowance ''1'' (setAllowance ''1'' 2 fresh_disk) = 2"
    by (simp add: getAllowance_setAllowance)
  have w: "writes (setAllowance ''1'' 2 fresh_disk) = 1"
    by (simp add: setAllowance_def Let_def writes_saveDb fresh_disk_def)
  have w0: "writes fresh_disk = 0" by (simp add: fresh_disk_def)
  from gate_persistence [of "''1''" 2 fresh_disk]
  have a: "snd (gate (Grant ''1'' 2) fresh_disk)
             = saveDb (loadDb (snd (gate (Grant ''1'' 2) fresh_disk))) fresh_disk"
    and b: "snd (gate (Get ''1'') fresh_disk) = fresh_disk"
    and c: "snd (gate (Decrement ''1'') fresh_disk) = fresh_disk"
    using z by simp_all
  from gate_persistence [of "''1''" 2 "setAllowance ''1'' 2 fresh_disk"] p
  have e: "snd (gate (Decrement ''1'') (setAllowance ''1'' 2 fresh_disk))
             = saveDb (loadDb (snd (gate (Decrement ''1'') (setAllowance ''1'' 2 fresh_disk))))
                 (setAllowance ''1'' 2 fresh_disk)"
    by simp
  have a': "writes (snd (gate (Grant ''1'' 2) fresh_disk)) = 1"
    by (subst a) (simp add: writes_saveDb w0)
  have e': "writes (snd (gate (Decrement ''1'') (setAllowance ''1'' 2 fresh_disk))) = 2"
    by (subst e) (simp add: writes_saveDb w)
  from a' b c e' show ?thesis by simp
qed

subsection \<open>C3: deleting a log message removes its record\<close>

text \<open>
  C3. If exactly one record of the store has \<open>messageId = m\<close>, then after
  \<^verbatim>\<open>removeFeedbackByMessageId(m)\<close> the list is the old list without that one record:
  the old list is \<open>as @ r # bs\<close> with \<open>messageId r = m\<close> and the new one is \<open>as @ bs\<close>, so
  every other record is still there and in the old order; the allowances are as before.
  The \<^verbatim>\<open>messageDelete\<close> handler calls it for a message of the log channel.
\<close>

theorem removeFeedbackByMessageId_exact:
  assumes "length (filter (\<lambda>f. messageId f = Some m) (feedback (loadDb d))) = 1"
  shows "feedback (loadDb (removeFeedbackByMessageId m d)) =
           filter (\<lambda>f. messageId f \<noteq> Some m) (feedback (loadDb d))
         \<and> (\<exists>as r bs. feedback (loadDb d) = as @ r # bs \<and> messageId r = Some m
              \<and> feedback (loadDb (removeFeedbackByMessageId m d)) = as @ bs)
         \<and> allowances (loadDb (removeFeedbackByMessageId m d)) = allowances (loadDb d)
         \<and> messageDelete cfg \<lparr>del_id = m, del_channel = Some (logChannelId cfg)\<rparr> d =
             (if m = [] \<or> logChannelId cfg = [] then d else removeFeedbackByMessageId m d)"
proof -
  let ?xs = "feedback (loadDb d)"
  let ?ys = "filter (\<lambda>f. messageId f \<noteq> Some m) ?xs"
  from filter_single [OF assms] obtain as r bs where
    dec: "?xs = as @ r # bs" "messageId r = Some m" "?ys = as @ bs" by blast
  then have len: "length ?ys \<noteq> length ?xs"
    by (metis length_append length_Cons add_Suc_right n_not_Suc_n)
  then have eq: "removeFeedbackByMessageId m d = saveDb ((loadDb d)\<lparr>feedback := ?ys\<rparr>) d"
    by (simp add: removeFeedbackByMessageId_def Let_def)
  have f: "feedback (loadDb (removeFeedbackByMessageId m d)) = ?ys"
    by (simp add: eq loadDb_saveDb)
  have a: "allowances (loadDb (removeFeedbackByMessageId m d)) = allowances (loadDb d)"
    by (simp add: eq loadDb_saveDb)
  from dec f have x: "\<exists>as r bs. ?xs = as @ r # bs \<and> messageId r = Some m
      \<and> feedback (loadDb (removeFeedbackByMessageId m d)) = as @ bs"
    by metis
  have h: "messageDelete cfg \<lparr>del_id = m, del_channel = Some (logChannelId cfg)\<rparr> d =
             (if m = [] \<or> logChannelId cfg = [] then d else removeFeedbackByMessageId m d)"
    by (simp add: messageDelete_def)
  from f x a h show ?thesis by blast
qed

theorem removeFeedbackByMessageId_exact_witness:
  "length (filter (\<lambda>f. messageId f = Some ''m1'')
      (feedback (loadDb (addFeedback (ex_entry ''2'' None)
         (addFeedback (ex_entry ''1'' (Some ''m1'')) fresh_disk))))) = 1
   \<and> feedback (loadDb (removeFeedbackByMessageId ''m1''
        (addFeedback (ex_entry ''2'' None) (addFeedback (ex_entry ''1'' (Some ''m1'')) fresh_disk))))
      = [ex_entry ''2'' None]"
proof -
  let ?d = "addFeedback (ex_entry ''2'' None) (addFeedback (ex_entry ''1'' (Some ''m1'')) fresh_disk)"
  have xs: "feedback (loadDb ?d) = [ex_entry ''1'' (Some ''m1''), ex_entry ''2'' None]"
    by (simp add: feedback_addFeedback feedback_fresh_disk)
  have h: "length (filter (\<lambda>f. messageId f = Some ''m1'') (feedback (loadDb ?d))) = 1"
    unfolding xs by (simp add: ex_entry_def)
  from removeFeedbackByMessageId_exact [OF h, of cfg0]
  have "feedback (loadDb (removeFeedbackByMessageId ''m1'' ?d))
          = filter (\<lambda>f. messageId f \<noteq> Some ''m1'') (feedback (loadDb ?d))"
    by (rule conjunct1)
  then have r: "feedback (loadDb (removeFeedbackByMessageId ''m1'' ?d)) = [ex_entry ''2'' None]"
    unfolding xs by (simp add: ex_entry_def)
  from h r show ?thesis by (rule conjI)
qed

subsection \<open>C4: allowances never go below zero\<close>

text \<open>
  C4. When the allowance of \<open>u\<close> is 0 (the entry is 0 or missing),
  \<^verbatim>\<open>decrementAllowance(u)\<close> returns 0 and leaves the disk as it is, so the allowance is
  still 0. And when no user has a negative allowance, no user has one after any list of
  events of the program (grant commands, button presses, modal submissions, deleted
  messages, API requests), nor after any list of calls of the allowance gate in which
  every grant has an amount of at least 1.
\<close>

theorem allowance_never_negative:
  "(getAllowance u d = 0 \<longrightarrow> decrementAllowance u d = (0, d))
   \<and> ((\<forall>v. 0 \<le> getAllowance v d) \<longrightarrow> (\<forall>v. 0 \<le> getAllowance v (run cfg es d)))
   \<and> ((\<forall>v. 0 \<le> getAllowance v d) \<and> list_all grant_ok cs \<longrightarrow>
        (\<forall>v. 0 \<le> getAllowance v (run_gate cs d)))"
  using decrementAllowance_at_zero [of u d] no_negative_run [of d cfg es]
    no_negative_run_gate [of d cs]
  by (simp add: no_negative_iff)

theorem allowance_never_negative_witness:
  "getAllowance ''7'' fresh_disk = 0
   \<and> decrementAllowance ''7'' fresh_disk = (0, fresh_disk)
   \<and> (\<forall>v. 0 \<le> getAllowance v fresh_disk)
   \<and> 0 \<le> getAllowance ''1''
        (run cfg0 [AllowCommand (ex_allow ''1'' ''!allow <@1> 2''),
                   ModalSubmit (ex_sub ''1'' ''4'' NotTextBased),
                   ModalSubmit (ex_sub ''1'' ''5'' NotTextBased),
                   ModalSubmit (ex_sub ''1'' ''5'' NotTextBased)] fresh_disk)
   \<and> list_all grant_ok [Grant ''1'' 1, Decrement ''1'', Decrement ''1'']
   \<and> 0 \<le> getAllowance ''1'' (run_gate [Grant ''1'' 1, Decrement ''1'', Decrement ''1''] fresh_disk)"
proof -
  have z: "getAllowance ''7'' fresh_disk = 0" by (rule getAllowance_fresh_disk)
  have n: "\<forall>v. 0 \<le> getAllowance v fresh_disk" by (simp add: getAllowance_fresh_disk)
  have g: "list_all grant_ok [Grant ''1'' 1, Decrement ''1'', Decrement ''1'']" by simp
  from allowance_never_negative [of "''7''" fresh_disk cfg0
      "[AllowCommand (ex_allow ''1'' ''!allow <@1> 2''),
        ModalSubmit (ex_sub ''1'' ''4'' NotTextBased),
        ModalSubmit (ex_sub ''1'' ''5'' NotTextBased),
        ModalSubmit (ex_sub ''1'' ''5'' NotTextBased)]"
      "[Grant ''1'' 1, Decrement ''1'', Decrement ''1'']"] z n g
  show ?thesis by blast
qed

subsection \<open>C5: the rating is checked before anything is stored\<close>

text \<open>
  C5. When the rating field of a modal submission does not parse to a number from 1 to
  5 (it parses to 0, to 6, to any other number out of range, or to no number), the
  handler answers with the rating error and the disk is what it was: no record is
  added and no allowance changes. Put the other way round: when a submission changes
  the disk, its rating parsed to a number from 1 to 5.
\<close>

theorem rating_validated_before_persistence:
  "(\<not> rating_ok s \<longrightarrow> feedback_modal s d = (RatingError, d))
   \<and> (snd (feedback_modal s d) \<noteq> d \<longrightarrow>
        (\<exists>r. parseInt (rating_input s) = Some r \<and> 1 \<le> r \<and> r \<le> 5))"
proof -
  have "rating_ok s \<Longrightarrow> \<exists>r. parseInt (rating_input s) = Some r \<and> 1 \<le> r \<and> r \<le> 5"
    by (cases "parseInt (rating_input s)") (simp_all add: rating_ok_def)
  then show ?thesis
    using feedback_modal_bad_rating [of s d] feedback_modal_changes [of s d] by blast
qed

theorem rating_validated_before_persistence_witness:
  "parseInt ''0'' = Some 0 \<and> parseInt ''6'' = Some 6 \<and> parseInt ''abc'' = None
   \<and> feedback_modal (ex_sub ''1'' ''0'' NotTextBased) (setAllowance ''1'' 2 fresh_disk)
       = (RatingError, setAllowance ''1'' 2 fresh_disk)
   \<and> feedback_modal (ex_sub ''1'' ''6'' NotTextBased) (setAllowance ''1'' 2 fresh_disk)
       = (RatingError, setAllowance ''1'' 2 fresh_disk)
   \<and> feedback_modal (ex_sub ''1'' ''abc'' NotTextBased) (setAllowance ''1'' 2 fresh_disk)
       = (RatingError, setAllowance ''1'' 2 fresh_disk)"
proof -
  have p: "parseInt ''0'' = Some 0" "parseInt ''6'' = Some 6" "parseInt ''abc'' = None"
    by (simp_all add: parse_simps)
  have r: "\<not> rating_ok (ex_sub ''1'' ''0'' NotTextBased)"
    "\<not> rating_ok (ex_sub ''1'' ''6'' NotTextBased)"
    "\<not> rating_ok (ex_sub ''1'' ''abc'' NotTextBased)"
    by (simp_all add: rating_ok_def ex_sub_def p)
  from rating_validated_before_persistence [of "ex_sub ''1'' ''0'' NotTextBased" "setAllowance ''1'' 2 fresh_disk"]
    rating_validated_before_persistence [of "ex_sub ''1'' ''6'' NotTextBased" "setAllowance ''1'' 2 fresh_disk"]
    rating_validated_before_persistence [of "ex_sub ''1'' ''abc'' NotTextBased" "setAllowance ''1'' 2 fresh_disk"]
    p r
  show ?thesis by blast
qed

subsection \<open>C6: the log API lists the newest record first\<close>

text \<open>
  C6. \<^verbatim>\<open>GET /api/feedback-logs\<close> answers with the records of the store in reverse order
  and leaves the disk as it is. After records \<open>es\<close> have been appended with
  \<^verbatim>\<open>addFeedback\<close>, in that order, the answer is \<open>es\<close> reversed, followed by what the
  answer was before.
\<close>

theorem api_feedback_logs_newest_first:
  "fst (api_feedback_logs d) = rev (feedback (loadDb d))
   \<and> snd (api_feedback_logs d) = d
   \<and> fst (api_feedback_logs (foldl (\<lambda>d e. addFeedback e d) d es))
       = rev es @ fst (api_feedback_logs d)"
  by (simp add: api_feedback_logs_def Let_def feedback_run_add)

theorem api_feedback_logs_newest_first_witness:
  "fst (api_feedback_logs
      (foldl (\<lambda>d e. addFeedback e d) fresh_disk [ex_entry ''1'' None, ex_entry ''2'' None]))
     = [ex_entry ''2'' None, ex_entry ''1'' None]
   \<and> snd (api_feedback_logs fresh_disk) = fresh_disk"
  using api_feedback_logs_newest_first [of fresh_disk "[ex_entry ''1'' None, ex_entry ''2'' None]"]
  by (simp add: feedback_fresh_disk)

subsection \<open>C9: a grant overwrites the quota and touches nothing else\<close>



subsection \<open>C7: one open ticket per user\<close>

text \<open>
  C7. When a user uses the select menu inside a guild whose ticket category is set up,
  and some channel of the cache lies under that category and has a topic that contains
  \<^verbatim>\<open>UserID:\<close> followed by the user's id, the handler answers with that channel (the
  first such channel of the cache) and the cache is as before; whatever the set-up, no
  channel is created for a user who has such a channel. Hence, when requests are
  handled one after the other, the requests of one user create at most one channel,
  and none when the user had a ticket at the start.
\<close>

theorem one_ticket_per_user:
  "(in_server r \<and> category_ok chans \<and> has_ticket (req_user r) chans \<longrightarrow>
      (\<exists>ch. ticket_select r chans = (AlreadyOpen ch, chans) \<and> ch \<in> set chans
            \<and> is_ticket_of (req_user r) ch))
   \<and> (has_ticket (req_user r) chans \<longrightarrow> snd (ticket_select r chans) = chans)
   \<and> created_for uid rs chans \<le> 1
   \<and> (has_ticket uid chans \<longrightarrow> created_for uid rs chans = 0)"
  using ticket_select_existing [of r chans] ticket_select_has [of r chans]
    created_for_le_1 [of uid rs chans] created_for_zero [of uid chans rs]
  by blast

theorem one_ticket_per_user_witness:
  "in_server (ex_request ''12345678901234567'' ''ann'' ''c2'')
   \<and> category_ok [ex_category, ex_ticket]
   \<and> has_ticket (req_user (ex_request ''12345678901234567'' ''ann'' ''c2'')) [ex_category, ex_ticket]
   \<and> ticket_select (ex_request ''12345678901234567'' ''ann'' ''c2'') [ex_category, ex_ticket]
        = (AlreadyOpen ex_ticket, [ex_category, ex_ticket])
   \<and> created_for ''12345678901234567''
        [ex_request ''12345678901234567'' ''ann'' ''c1'',
         ex_request ''12345678901234567'' ''ann'' ''c2''] [ex_category] \<le> 1"
proof -
  let ?r = "ex_request ''12345678901234567'' ''ann'' ''c2''"
  let ?chans = "[ex_category, ex_ticket]"
  have s: "in_server ?r" by (simp add: ex_request_def)
  have c: "category_ok ?chans" by (simp add: category_ok_def ex_category_def)
  have n: "\<not> is_ticket_of ''12345678901234567'' ex_category"
    by (simp add: is_ticket_of_def ex_category_def)
  have t: "is_ticket_of ''12345678901234567'' ex_ticket"
    by (simp add: is_ticket_of_def ex_ticket_def TICKET_CATEGORY_ID_def)
  have u: "req_user ?r = ''12345678901234567''" by (simp add: ex_request_def)
  have h: "has_ticket (req_user ?r) ?chans"
    using t by (simp add: has_ticket_def u)
  have f: "List.find (is_ticket_of (req_user ?r)) ?chans = Some ex_ticket"
    using n t by (simp add: u)
  have e: "ticket_select ?r ?chans = (AlreadyOpen ex_ticket, ?chans)"
    using s f by (simp add: ticket_select_def ex_category_def)
  from one_ticket_per_user [of ?r ?chans "''12345678901234567''" "[?r]"]
    one_ticket_per_user [of ?r "[ex_category]" "''12345678901234567''"
      "[ex_request ''12345678901234567'' ''ann'' ''c1'', ?r]"] s c h e
  show ?thesis by simp
qed

subsection \<open>C8: the owner's id comes back out of the topic\<close>

text \<open>
  C8. The topic written at ticket creation holds the user's tag in front of the id. A
  tag is a Discord user name, followed by \<^verbatim>\<open>#\<close> and four digits where the account still
  has a discriminator, and a Discord user name holds no colon; the handlers take the tag
  as Discord gives it. For every user whose id is a string of 17 to 19 decimal digits
  and whose tag holds no colon (or, more generally, no match of the pattern), the
  pattern of the Notify handler applied to the topic written at ticket creation gives
  exactly that id, whatever the type label is. So for a channel that the select menu
  created for the user, the Notify button pressed by a staff member (when fetching the
  user and sending the message work) notifies that user.
\<close>

theorem owner_round_trip:
  assumes "is_user_id uid" and "CHR '':'' \<notin> set tag \<or> topic_match tag = None"
  shows "topic_match (ticket_topic tag uid label) = Some uid
    \<and> (\<forall>r chans ch chans'.
          req_user r = uid \<and> req_tag r = tag \<and> ticket_select r chans = (TicketCreated ch, chans') \<longrightarrow>
          ticket_notify cfg \<lparr>press_roles = [requiredRoleId cfg], press_topic = topic ch,
             fetched = True, dm_sent = True\<rparr> = Notified uid)"
proof -
  from assms(2) have c: "topic_match tag = None"
    using topic_match_no_colon [of tag] by blast
  have t: "\<And>l. topic_match (ticket_topic tag uid l) = Some uid"
    using assms(1) c by (rule topic_match_ticket_topic)
  have "ticket_notify cfg \<lparr>press_roles = [requiredRoleId cfg], press_topic = topic ch,
             fetched = True, dm_sent = True\<rparr> = Notified uid"
    if "req_user r = uid" "req_tag r = tag" "ticket_select r chans = (TicketCreated ch, chans')"
    for r chans ch chans'
    using ticket_select_created_topic [OF that(3)] that(1,2) t
    by (simp add: ticket_notify_def)
  with t show ?thesis by blast
qed

theorem owner_round_trip_witness:
  "is_user_id ''123456789012345678''
   \<and> CHR '':'' \<notin> set ''ann#0001''
   \<and> topic_match (ticket_topic ''ann#0001'' ''123456789012345678'' ''Bug / Technical Issue'')
       = Some ''123456789012345678''"
proof -
  have i: "is_user_id ''123456789012345678''"
    by (simp add: is_user_id_def is_digit_def)
  have n: "CHR '':'' \<notin> set ''ann#0001''"
    by simp
  from n have h: "CHR '':'' \<notin> set ''ann#0001'' \<or> topic_match ''ann#0001'' = None"
    by (rule disjI1)
  from owner_round_trip [OF i h, of "''Bug / Technical Issue''" cfg0] i n
  show ?thesis by simp
qed

end
